theory Spec2Isabelle
  imports Main
begin

section \<open>BlockingQueue: a sequential model of Cpp11-BlockingQueue.h\<close>

text \<open>
  The class \<^verbatim>\<open>BlockingQueue<T>\<close> has three members: the container
  \<^verbatim>\<open>std::queue<T> q_\<close>, the mutex \<^verbatim>\<open>mtx_\<close> and the condition variable
  \<^verbatim>\<open>cv_\<close>. The model is the view of one thread: every member function takes
  the lock on entry and has released it on exit, so between two calls the only
  state of an object is the content of \<^verbatim>\<open>q_\<close>. The field is called \<open>bq_q\<close>
  because a name cannot end with an underscore here. The front of the queue is
  the head of the list. The one place where a member function gives the lock
  away before it returns is the wait of \<^verbatim>\<open>deQ\<close>; what the other threads do
  to the queue meanwhile is an environment, in \<open>deQ_env\<close> below.
\<close>

record 'a BlockingQueue =
  bq_q :: "'a list"

subsection \<open>The operations of \<^verbatim>\<open>std::queue\<close> that the class calls\<close>

text \<open>
  \<^verbatim>\<open>front()\<close> and \<^verbatim>\<open>pop()\<close> of an empty \<^verbatim>\<open>std::queue\<close> are undefined
  behaviour. Every call of them in the header stands under a test
  \<^verbatim>\<open>q_.size() > 0\<close>, and every use of \<open>queue_front\<close> and \<open>queue_pop\<close> below
  stands under the same test. \<^verbatim>\<open>size()\<close> returns a \<^verbatim>\<open>size_t\<close>; the number of
  elements of a container never exceeds that type, so it is a \<open>nat\<close> here.
\<close>

definition queue_size :: "'a list \<Rightarrow> nat" where
  "queue_size q = length q"

definition queue_front :: "'a list \<Rightarrow> 'a" where
  "queue_front q = hd q"

definition queue_pop :: "'a list \<Rightarrow> 'a list" where
  "queue_pop q = tl q"

definition queue_push :: "'a \<Rightarrow> 'a list \<Rightarrow> 'a list" where
  "queue_push t q = q @ [t]"

text \<open>
  The loop \<^verbatim>\<open>while (q_.size() > 0) q_.pop();\<close> of the move constructor
  (lines 94-95), of the move assignment (lines 106-107) and of \<^verbatim>\<open>clear\<close>
  (lines 168-169).
\<close>

function pop_all :: "'a list \<Rightarrow> 'a list" where
  "pop_all q = (if queue_size q > 0 then pop_all (queue_pop q) else q)"
  by pat_completeness auto
termination
  by (relation "measure length") (auto simp: queue_size_def queue_pop_def)

declare pop_all.simps [simp del]

subsection \<open>Member functions that touch one object\<close>

text \<open>
  \<^verbatim>\<open>cv_.wait(l, pred)\<close> is \<^verbatim>\<open>while (!pred()) wait(l);\<close> with the predicate
  \<^verbatim>\<open>q_.size() > 0\<close> of line 136. The inner \<^verbatim>\<open>wait(l)\<close> releases the lock and
  suspends the thread; in the view of one thread nobody else holds the object,
  so the queue is the same when it comes back. A loop that never ends is the
  value \<open>None\<close>.
\<close>

partial_function (option) cv_wait :: "'a BlockingQueue \<Rightarrow> 'a BlockingQueue option" where
  "cv_wait b = (if queue_size (bq_q b) > 0 then Some b else cv_wait b)"

text \<open>The loop \<^verbatim>\<open>while (q_.size() == 0) cv_.wait(...)\<close> of lines 135-136.\<close>

partial_function (option) deQ_wait :: "'a BlockingQueue \<Rightarrow> 'a BlockingQueue option" where
  "deQ_wait b =
     (if queue_size (bq_q b) = 0 then Option.bind (cv_wait b) deQ_wait else Some b)"

text \<open>
  \<^verbatim>\<open>T deQ()\<close>, lines 113-140: the value returned and the object afterwards, or
  \<open>None\<close> when the call never returns.
\<close>

definition deQ :: "'a BlockingQueue \<Rightarrow> ('a \<times> 'a BlockingQueue) option" where
  "deQ b =
     (if queue_size (bq_q b) > 0
      then Some (queue_front (bq_q b), b\<lparr>bq_q := queue_pop (bq_q b)\<rparr>)
      else (case deQ_wait b of
              None \<Rightarrow> None
            | Some b' \<Rightarrow> Some (queue_front (bq_q b'), b'\<lparr>bq_q := queue_pop (bq_q b')\<rparr>)))"

text \<open>
  \<^verbatim>\<open>void enQ(T t)\<close>, lines 143-151. \<^verbatim>\<open>cv_.notify_one()\<close> changes no member.
\<close>

definition enQ :: "'a \<Rightarrow> 'a BlockingQueue \<Rightarrow> 'a BlockingQueue" where
  "enQ t b = b\<lparr>bq_q := queue_push t (bq_q b)\<rparr>"

text \<open>
  \<^verbatim>\<open>T& front()\<close>, lines 154-161. The exception thrown on an empty queue is
  \<^verbatim>\<open>std::exception("attempt to access empty queue")\<close>, the only \<^verbatim>\<open>throw\<close> of the
  header.
\<close>

datatype error = std_exception string

definition front :: "'a BlockingQueue \<Rightarrow> error + 'a" where
  "front b =
     (if queue_size (bq_q b) > 0 then Inr (queue_front (bq_q b))
      else Inl (std_exception ''attempt to access empty queue''))"

text \<open>\<^verbatim>\<open>void clear()\<close>, lines 164-170.\<close>

definition clear :: "'a BlockingQueue \<Rightarrow> 'a BlockingQueue" where
  "clear b = b\<lparr>bq_q := pop_all (bq_q b)\<rparr>"

text \<open>\<^verbatim>\<open>size_t size()\<close>, lines 173-178.\<close>

definition size_bq :: "'a BlockingQueue \<Rightarrow> nat" where
  "size_bq b = queue_size (bq_q b)"

subsection \<open>Constructors and move assignment: objects in a store\<close>

text \<open>
  Move assignment compares the addresses of its two objects (line 103), so these
  functions work on a store of objects. A C++ reference always denotes an
  object, so the store is total. \<open>this\<close> is the address of the object the
  member function is called on, \<open>bq\<close> the address its argument refers to. A
  constructor receives in \<open>this\<close> the storage of the new object.
\<close>

type_synonym addr = nat

type_synonym 'a store = "addr \<Rightarrow> 'a BlockingQueue"

text \<open>\<^verbatim>\<open>BlockingQueue() {}\<close>, line 71: \<^verbatim>\<open>q_\<close> is default-constructed, empty.\<close>

definition BlockingQueue_default :: "addr \<Rightarrow> 'a store \<Rightarrow> 'a store" where
  "BlockingQueue_default this s = s(this := \<lparr>bq_q = []\<rparr>)"

text \<open>
  \<^verbatim>\<open>BlockingQueue(BlockingQueue<T>&& bq)\<close>, lines 88-97. There is no member
  initialiser, so \<^verbatim>\<open>q_\<close> is default-constructed first; then line 93 copies
  \<^verbatim>\<open>bq.q_\<close> into it and the loop empties \<^verbatim>\<open>bq.q_\<close>.
\<close>

definition BlockingQueue_move :: "addr \<Rightarrow> addr \<Rightarrow> 'a store \<Rightarrow> 'a store" where
  "BlockingQueue_move this bq s =
     (let s0 = s(this := \<lparr>bq_q = []\<rparr>);
          s1 = s0(this := (s0 this)\<lparr>bq_q := bq_q (s0 bq)\<rparr>);
          s2 = s1(bq := (s1 bq)\<lparr>bq_q := pop_all (bq_q (s1 bq))\<rparr>)
      in s2)"

text \<open>
  \<^verbatim>\<open>operator=(BlockingQueue<T>&& bq)\<close>, lines 100-110. The result \<^verbatim>\<open>*this\<close> is
  the object at \<open>this\<close> in the store returned.
\<close>

definition move_assign :: "addr \<Rightarrow> addr \<Rightarrow> 'a store \<Rightarrow> 'a store" where
  "move_assign this bq s =
     (if this = bq then s
      else (let s1 = s(this := (s this)\<lparr>bq_q := bq_q (s bq)\<rparr>);
                s2 = s1(bq := (s1 bq)\<lparr>bq_q := pop_all (bq_q (s1 bq))\<rparr>)
            in s2))"

subsection \<open>The public interface as a whole\<close>

text \<open>
  The public members of the class (lines 71-80) as calls on the object at
  \<open>this\<close>, with what a call does: it returns (with a value, for \<^verbatim>\<open>deQ\<close>,
  \<^verbatim>\<open>front\<close> and \<^verbatim>\<open>size\<close>), it throws, or it never returns.
\<close>

datatype 'a call =
    Call_default_ctor
  | Call_move_ctor addr
  | Call_move_assign addr
  | Call_deQ
  | Call_enQ 'a
  | Call_front
  | Call_clear
  | Call_size

datatype 'a outcome =
    Returns
  | Returns_value 'a
  | Returns_size nat
  | Throws error
  | Never_returns

fun exec :: "'a call \<Rightarrow> addr \<Rightarrow> 'a store \<Rightarrow> 'a outcome \<times> 'a store" where
  "exec Call_default_ctor this s = (Returns, BlockingQueue_default this s)"
| "exec (Call_move_ctor bq) this s = (Returns, BlockingQueue_move this bq s)"
| "exec (Call_move_assign bq) this s = (Returns, move_assign this bq s)"
| "exec Call_deQ this s =
     (case deQ (s this) of
        None \<Rightarrow> (Never_returns, s)
      | Some (v, b') \<Rightarrow> (Returns_value v, s(this := b')))"
| "exec (Call_enQ t) this s = (Returns, s(this := enQ t (s this)))"
| "exec Call_front this s =
     (case front (s this) of
        Inl e \<Rightarrow> (Throws e, s)
      | Inr v \<Rightarrow> (Returns_value v, s))"
| "exec Call_clear this s = (Returns, s(this := clear (s this)))"
| "exec Call_size this s = (Returns_size (size_bq (s this)), s)"

subsection \<open>Sequences of calls\<close>

text \<open>
  \<open>enQ_all vs b\<close> calls \<open>enQ\<close> with each value of \<open>vs\<close> from left to right;
  \<open>deQ_n n b\<close> calls \<open>deQ\<close> \<open>n\<close> times and collects what the calls return, and is
  \<open>None\<close> when one of them never returns.
\<close>

fun enQ_all :: "'a list \<Rightarrow> 'a BlockingQueue \<Rightarrow> 'a BlockingQueue" where
  "enQ_all [] b = b"
| "enQ_all (v # vs) b = enQ_all vs (enQ v b)"

fun deQ_n :: "nat \<Rightarrow> 'a BlockingQueue \<Rightarrow> ('a list \<times> 'a BlockingQueue) option" where
  "deQ_n 0 b = Some ([], b)"
| "deQ_n (Suc n) b =
     (case deQ b of
        None \<Rightarrow> None
      | Some (v, b') \<Rightarrow>
          (case deQ_n n b' of
             None \<Rightarrow> None
           | Some (vs, b'') \<Rightarrow> Some (v # vs, b'')))"

subsection \<open>\<^verbatim>\<open>deQ\<close> with other threads\<close>

text \<open>
  While the caller of \<^verbatim>\<open>deQ\<close> is suspended in \<^verbatim>\<open>wait(l)\<close> the lock is free and the
  other threads can change \<^verbatim>\<open>q_\<close>. The environment \<open>env\<close> stands for them:
  \<open>env k\<close> is the content of \<^verbatim>\<open>q_\<close> that the caller finds when \<^verbatim>\<open>wait(l)\<close>
  returns for the \<open>k\<close>-th time (counted from 0), whether \<^verbatim>\<open>notify_one\<close> woke it
  or the wake-up is spurious. The counter \<open>k\<close> is the number of times
  \<^verbatim>\<open>wait(l)\<close> has returned so far. From the return of \<^verbatim>\<open>wait(l)\<close> on the caller
  holds the lock again, so nothing changes between the test of the predicate,
  the test of the loop and the removal of the element.

  \<open>cv_wait_env\<close> is \<^verbatim>\<open>cv_.wait(l, pred)\<close> of line 136, that is
  \<^verbatim>\<open>while (!pred()) wait(l);\<close> with the predicate \<^verbatim>\<open>q_.size() > 0\<close>.
\<close>

partial_function (option) cv_wait_env ::
  "(nat \<Rightarrow> 'a list) \<Rightarrow> nat \<Rightarrow> 'a BlockingQueue \<Rightarrow> (nat \<times> 'a BlockingQueue) option" where
  "cv_wait_env env k b =
     (if queue_size (bq_q b) > 0 then Some (k, b)
      else cv_wait_env env (Suc k) (b\<lparr>bq_q := env k\<rparr>))"

text \<open>The loop \<^verbatim>\<open>while (q_.size() == 0) cv_.wait(...)\<close> of lines 135-136.\<close>

partial_function (option) deQ_wait_env ::
  "(nat \<Rightarrow> 'a list) \<Rightarrow> nat \<Rightarrow> 'a BlockingQueue \<Rightarrow> (nat \<times> 'a BlockingQueue) option" where
  "deQ_wait_env env k b =
     (if queue_size (bq_q b) = 0
      then Option.bind (cv_wait_env env k b) (\<lambda>(k', b'). deQ_wait_env env k' b')
      else Some (k, b))"

text \<open>
  \<^verbatim>\<open>T deQ()\<close>, lines 113-140, among other threads: the first exit of lines
  127-132, or the wait and the second exit of lines 135-139.
\<close>

definition deQ_env :: "(nat \<Rightarrow> 'a list) \<Rightarrow> 'a BlockingQueue \<Rightarrow> ('a \<times> 'a BlockingQueue) option" where
  "deQ_env env b =
     (if queue_size (bq_q b) > 0
      then Some (queue_front (bq_q b), b\<lparr>bq_q := queue_pop (bq_q b)\<rparr>)
      else (case deQ_wait_env env 0 b of
              None \<Rightarrow> None
            | Some (k, b') \<Rightarrow> Some (queue_front (bq_q b'), b'\<lparr>bq_q := queue_pop (bq_q b')\<rparr>)))"

text \<open>
  The environment made by threads that only call \<^verbatim>\<open>enQ\<close>: \<open>vs k\<close> are the values
  they enqueue, in this order, while the caller is suspended for the \<open>k\<close>-th
  time, and \<open>woken vs b k\<close> is the content of the queue at the \<open>k\<close>-th wake-up,
  starting from the object \<open>b\<close>.
\<close>

fun woken :: "(nat \<Rightarrow> 'a list) \<Rightarrow> 'a BlockingQueue \<Rightarrow> nat \<Rightarrow> 'a list" where
  "woken vs b 0 = bq_q (enQ_all (vs 0) b)"
| "woken vs b (Suc k) = bq_q (enQ_all (vs (Suc k)) (b\<lparr>bq_q := woken vs b k\<rparr>))"

section \<open>Basic facts\<close>

lemma pop_all_Nil: "pop_all q = []"
proof (induction q rule: pop_all.induct)
  case (1 q)
  show ?case
  proof (cases "queue_size q > 0")
    case True
    with 1 show ?thesis by (subst pop_all.simps) simp
  next
    case False
    then show ?thesis by (subst pop_all.simps) (simp add: queue_size_def)
  qed
qed

lemma cv_wait_Some: "cv_wait b = Some b' \<Longrightarrow> queue_size (bq_q b) > 0"
  by (erule cv_wait.raw_induct [rotated]) (simp split: if_splits)

lemma deQ_wait_empty: "queue_size (bq_q b) = 0 \<Longrightarrow> deQ_wait b = None"
proof -
  assume e: "queue_size (bq_q b) = 0"
  have "cv_wait b = None"
  proof (cases "cv_wait b")
    case (Some b')
    from cv_wait_Some [OF this] e show ?thesis by simp
  qed simp
  with e show ?thesis by (subst deQ_wait.simps) simp
qed

lemma deQ_Cons: "bq_q b = x # xs \<Longrightarrow> deQ b = Some (x, b\<lparr>bq_q := xs\<rparr>)"
  by (simp add: deQ_def queue_size_def queue_front_def queue_pop_def)

lemma deQ_Nil: "bq_q b = [] \<Longrightarrow> deQ b = None"
  by (simp add: deQ_def deQ_wait_empty queue_size_def)

lemma enQ_all_eq: "enQ_all vs b = b\<lparr>bq_q := bq_q b @ vs\<rparr>"
  by (induction vs arbitrary: b) (simp_all add: enQ_def queue_push_def)

lemma deQ_n_drain: "bq_q b = xs \<Longrightarrow> deQ_n (length xs) b = Some (xs, b\<lparr>bq_q := []\<rparr>)"
proof (induction xs arbitrary: b)
  case Nil
  then show ?case by simp
next
  case (Cons x xs)
  have "deQ b = Some (x, b\<lparr>bq_q := xs\<rparr>)"
    using Cons.prems by (rule deQ_Cons)
  moreover have "deQ_n (length xs) (b\<lparr>bq_q := xs\<rparr>) = Some (xs, b\<lparr>bq_q := []\<rparr>)"
    using Cons.IH [of "b\<lparr>bq_q := xs\<rparr>"] by simp
  ultimately show ?case by simp
qed

lemma move_assign_distinct:
  "this \<noteq> bq \<Longrightarrow>
     move_assign this bq s
       = s(this := (s this)\<lparr>bq_q := bq_q (s bq)\<rparr>, bq := (s bq)\<lparr>bq_q := []\<rparr>)"
  by (simp add: move_assign_def Let_def pop_all_Nil)

lemma BlockingQueue_move_distinct:
  "this \<noteq> bq \<Longrightarrow>
     BlockingQueue_move this bq s
       = s(this := \<lparr>bq_q = bq_q (s bq)\<rparr>, bq := (s bq)\<lparr>bq_q := []\<rparr>)"
  by (simp add: BlockingQueue_move_def Let_def pop_all_Nil)

lemma clear_eq: "clear b = b\<lparr>bq_q := []\<rparr>"
  by (simp add: clear_def pop_all_Nil)

lemma cv_wait_env_Some:
  "cv_wait_env env k b = Some r \<Longrightarrow> bq_q b \<noteq> [] \<or> (\<exists>n. env n \<noteq> [])"
proof (erule cv_wait_env.raw_induct [rotated], goal_cases)
  case (1 f env k b r)
  show ?case
  proof (cases "bq_q b = [] \<and> env k = []")
    case True
    with 1(2) have "f env (Suc k) (b\<lparr>bq_q := env k\<rparr>) = Some r"
      by (simp add: queue_size_def)
    from 1(1) [OF this] True show ?thesis by simp
  next
    case False
    then show ?thesis by blast
  qed
qed

lemma cv_wait_env_skip:
  "bq_q b = [] \<Longrightarrow> \<forall>j<n. env (k + j) = [] \<Longrightarrow> cv_wait_env env k b = cv_wait_env env (k + n) b"
proof (induction n arbitrary: k)
  case 0
  then show ?case by simp
next
  case (Suc n)
  from Suc.prems(2) have e: "env k = []" by (metis add.right_neutral zero_less_Suc)
  from Suc.prems(2) have r: "\<forall>j<n. env (Suc k + j) = []" by auto
  have "cv_wait_env env k b = cv_wait_env env (Suc k) (b\<lparr>bq_q := env k\<rparr>)"
    using Suc.prems(1) by (subst cv_wait_env.simps) (simp add: queue_size_def)
  also have "b\<lparr>bq_q := env k\<rparr> = b" using e Suc.prems(1) by simp
  also have "cv_wait_env env (Suc k) b = cv_wait_env env (Suc k + n) b"
    using Suc.IH [OF Suc.prems(1) r] .
  finally show ?case by simp
qed

lemma cv_wait_env_first:
  assumes "bq_q b = []" "\<forall>j<n. env j = []" "env n = x # xs"
  shows "cv_wait_env env 0 b = Some (Suc n, b\<lparr>bq_q := x # xs\<rparr>)"
proof -
  have "cv_wait_env env 0 b = cv_wait_env env n b"
    using cv_wait_env_skip [of b n env 0] assms by simp
  also have "\<dots> = cv_wait_env env (Suc n) (b\<lparr>bq_q := env n\<rparr>)"
    using assms(1) by (subst cv_wait_env.simps) (simp add: queue_size_def)
  also have "\<dots> = Some (Suc n, b\<lparr>bq_q := x # xs\<rparr>)"
    using assms(3) by (subst cv_wait_env.simps) (simp add: queue_size_def)
  finally show ?thesis .
qed

lemma deQ_env_first:
  assumes "bq_q b = []" "\<forall>j<n. env j = []" "env n = x # xs"
  shows "deQ_env env b = Some (x, b\<lparr>bq_q := xs\<rparr>)"
proof -
  have "deQ_wait_env env 0 b = deQ_wait_env env (Suc n) (b\<lparr>bq_q := x # xs\<rparr>)"
    using assms(1) cv_wait_env_first [OF assms]
    by (subst deQ_wait_env.simps) (simp add: queue_size_def)
  also have "\<dots> = Some (Suc n, b\<lparr>bq_q := x # xs\<rparr>)"
    by (subst deQ_wait_env.simps) (simp add: queue_size_def)
  finally show ?thesis
    using assms(1) by (simp add: deQ_env_def queue_size_def queue_front_def queue_pop_def)
qed

lemma deQ_env_never:
  assumes "bq_q b = []" "\<forall>n. env n = []"
  shows "deQ_env env b = None"
proof -
  have "cv_wait_env env 0 b = None"
  proof (cases "cv_wait_env env 0 b")
    case (Some r)
    from cv_wait_env_Some [OF this] assms show ?thesis by simp
  qed simp
  then have "deQ_wait_env env 0 b = None"
    using assms(1) by (subst deQ_wait_env.simps) (simp add: queue_size_def)
  then show ?thesis using assms(1) by (simp add: deQ_env_def queue_size_def)
qed

lemma deQ_env_nonempty: "bq_q b = x # xs \<Longrightarrow> deQ_env env b = Some (x, b\<lparr>bq_q := xs\<rparr>)"
  by (simp add: deQ_env_def queue_size_def queue_front_def queue_pop_def)

lemma deQ_one_thread: "deQ b = deQ_env (\<lambda>_. bq_q b) b"
proof (cases "bq_q b")
  case Nil
  then show ?thesis by (simp add: deQ_Nil deQ_env_never)
next
  case (Cons x xs)
  then show ?thesis by (simp add: deQ_Cons deQ_env_nonempty)
qed

lemma woken_eq: "woken vs b k = bq_q b @ concat (map vs [0..<Suc k])"
  by (induction k) (simp_all add: enQ_all_eq)

lemma woken_empty: "bq_q b = [] \<Longrightarrow> \<forall>j\<le>k. vs j = [] \<Longrightarrow> woken vs b k = []"
  by (induction k) (simp_all add: enQ_all_eq)

lemma woken_first:
  "bq_q b = [] \<Longrightarrow> \<forall>j<n. vs j = [] \<Longrightarrow> woken vs b n = vs n"
  by (cases n) (simp_all add: enQ_all_eq woken_empty)

section \<open>The claims\<close>

text \<open>
  C1 (FIFO). A queue is created empty (line 71). After the values \<open>vs\<close> have been
  enqueued on it by \<open>enQ\<close>, one after the other and with no \<open>deQ\<close> in between,
  \<open>length vs\<close> calls of \<open>deQ\<close> all return, and they return exactly \<open>vs\<close>, in
  the order of insertion, leaving the queue empty. More generally, on a queue
  that already holds elements those come out first, in their order, followed by
  \<open>vs\<close>.
\<close>

theorem fifo_order:
  "deQ_n (length vs) (enQ_all vs \<lparr>bq_q = []\<rparr>) = Some (vs, \<lparr>bq_q = []\<rparr>) \<and>
   deQ_n (size_bq b + length vs) (enQ_all vs b) = Some (bq_q b @ vs, b\<lparr>bq_q := []\<rparr>)"
proof
  show "deQ_n (size_bq b + length vs) (enQ_all vs b) = Some (bq_q b @ vs, b\<lparr>bq_q := []\<rparr>)"
    using deQ_n_drain [of "enQ_all vs b" "bq_q b @ vs"]
    by (simp add: enQ_all_eq size_bq_def queue_size_def)
  show "deQ_n (length vs) (enQ_all vs \<lparr>bq_q = []\<rparr>) = Some (vs, \<lparr>bq_q = []\<rparr>)"
    using deQ_n_drain [of "enQ_all vs \<lparr>bq_q = []\<rparr>" vs]
    by (simp add: enQ_all_eq)
qed

theorem fifo_order_witness:
  "deQ_n 3 (enQ ''c'' (enQ ''b'' (enQ ''a'' \<lparr>bq_q = []\<rparr>)))
     = Some ([''a'', ''b'', ''c''], \<lparr>bq_q = []\<rparr>)"
proof -
  have "deQ_n (length [''a'', ''b'', ''c'']) (enQ_all [''a'', ''b'', ''c''] \<lparr>bq_q = []\<rparr>)
          = Some ([''a'', ''b'', ''c''], \<lparr>bq_q = []\<rparr>)"
    using fifo_order [of "[''a'', ''b'', ''c'']"] by (rule conjunct1)
  then show ?thesis by (simp add: numeral_3_eq_3 del: deQ_n.simps)
qed

text \<open>
  C2 (the error of \<open>front\<close>). \<open>front\<close> throws exactly when the queue is empty, and
  returns a value exactly when it is not; it always does one or the other, so it
  never waits. Of all the calls of the public interface, on every object of
  every store, only \<open>front\<close> on an empty queue throws. \<open>front\<close> returns \<open>v\<close>
  exactly when the next \<open>deQ\<close> would return \<open>v\<close>: on a non-empty queue both give
  the first element; and \<open>front\<close> leaves the store as it was.
\<close>

theorem front_throws_iff_empty:
  "(front b = Inl (std_exception ''attempt to access empty queue'')) = (size_bq b = 0) \<and>
   (\<exists>v. front b = Inr v) = (size_bq b > 0) \<and>
   fst (exec Call_front this s) \<noteq> Never_returns \<and>
   (\<exists>e. fst (exec c this s) = Throws e) = (c = Call_front \<and> size_bq (s this) = 0) \<and>
   (front b = Inr v) = (\<exists>b'. deQ b = Some (v, b')) \<and>
   (size_bq b > 0 \<longrightarrow>
      front b = Inr (hd (bq_q b)) \<and> deQ b = Some (hd (bq_q b), b\<lparr>bq_q := tl (bq_q b)\<rparr>)) \<and>
   snd (exec Call_front this s) = s"
proof -
  have throws: "(front b = Inl (std_exception ''attempt to access empty queue'')) = (size_bq b = 0)"
    by (simp add: front_def size_bq_def)
  have returns: "(\<exists>v. front b = Inr v) = (size_bq b > 0)"
    by (simp add: front_def size_bq_def)
  have no_wait: "fst (exec Call_front this s) \<noteq> Never_returns"
    by (simp split: sum.split)
  have only_front: "(\<exists>e. fst (exec c this s) = Throws e) = (c = Call_front \<and> size_bq (s this) = 0)"
    by (cases c) (auto simp: front_def size_bq_def split: option.splits sum.splits)
  have same: "(front b = Inr v) = (\<exists>b'. deQ b = Some (v, b'))"
  proof (cases "bq_q b")
    case Nil
    then show ?thesis by (simp add: deQ_Nil front_def queue_size_def)
  next
    case (Cons x xs)
    then show ?thesis by (auto simp: deQ_Cons front_def queue_size_def queue_front_def)
  qed
  have nonempty: "size_bq b > 0 \<longrightarrow>
      front b = Inr (hd (bq_q b)) \<and> deQ b = Some (hd (bq_q b), b\<lparr>bq_q := tl (bq_q b)\<rparr>)"
    by (simp add: front_def deQ_def size_bq_def queue_front_def queue_pop_def)
  have kept: "snd (exec Call_front this s) = s"
    by (simp split: sum.split)
  from throws returns no_wait only_front same nonempty kept show ?thesis
    by (intro conjI)
qed

theorem front_throws_iff_empty_witness:
  "size_bq \<lparr>bq_q = [''a'', ''b'']\<rparr> > 0 \<and>
   front \<lparr>bq_q = [''a'', ''b'']\<rparr> = Inr ''a'' \<and>
   deQ \<lparr>bq_q = [''a'', ''b'']\<rparr> = Some (''a'', \<lparr>bq_q = [''b'']\<rparr>) \<and>
   front (\<lparr>bq_q = []\<rparr> :: string BlockingQueue)
     = Inl (std_exception ''attempt to access empty queue'')"
proof -
  have pos: "size_bq \<lparr>bq_q = [''a'', ''b'']\<rparr> > 0"
    by (simp add: size_bq_def queue_size_def)
  have zero: "size_bq (\<lparr>bq_q = []\<rparr> :: string BlockingQueue) = 0"
    by (simp add: size_bq_def queue_size_def)
  have "size_bq \<lparr>bq_q = [''a'', ''b'']\<rparr> > 0 \<longrightarrow>
          front \<lparr>bq_q = [''a'', ''b'']\<rparr> = Inr (hd (bq_q \<lparr>bq_q = [''a'', ''b'']\<rparr>)) \<and>
          deQ \<lparr>bq_q = [''a'', ''b'']\<rparr>
            = Some (hd (bq_q \<lparr>bq_q = [''a'', ''b'']\<rparr>),
                \<lparr>bq_q = [''a'', ''b'']\<rparr>\<lparr>bq_q := tl (bq_q \<lparr>bq_q = [''a'', ''b'']\<rparr>)\<rparr>)"
    using front_throws_iff_empty
      [where b = "\<lparr>bq_q = [''a'', ''b'']\<rparr>" and v = "''a''" and c = Call_front and this = 0
         and s = "\<lambda>_. \<lparr>bq_q = []\<rparr>"]
    by blast
  with pos
  have "front \<lparr>bq_q = [''a'', ''b'']\<rparr> = Inr ''a'' \<and>
        deQ \<lparr>bq_q = [''a'', ''b'']\<rparr> = Some (''a'', \<lparr>bq_q = [''b'']\<rparr>)"
    by simp
  moreover
  have "(front (\<lparr>bq_q = []\<rparr> :: string BlockingQueue)
           = Inl (std_exception ''attempt to access empty queue''))
        = (size_bq (\<lparr>bq_q = []\<rparr> :: string BlockingQueue) = 0)"
    using front_throws_iff_empty
      [where b = "\<lparr>bq_q = []\<rparr> :: string BlockingQueue" and v = "''a''" and c = Call_front
         and this = 0 and s = "\<lambda>_. \<lparr>bq_q = []\<rparr>"]
    by blast
  with zero
  have "front (\<lparr>bq_q = []\<rparr> :: string BlockingQueue)
          = Inl (std_exception ''attempt to access empty queue'')"
    by simp
  ultimately show ?thesis using pos by simp
qed

text \<open>
  C3 (move). Let \<open>bq\<close> be the source \<open>A\<close> and \<open>this\<close> the destination \<open>B\<close>, two
  different objects. After the move constructor, and after the move assignment,
  the destination holds the whole sequence of the source in the same order, so
  its size is the source's former size and that many calls of \<open>deQ\<close> return the
  sequence from its first element to its last; and the source is empty, of
  size 0. With a source holding "x" and "y": the destination has size 2 and
  gives "x", then "y", and the source has size 0.
\<close>

theorem move_transfers_sequence:
  "this \<noteq> bq \<Longrightarrow>
     bq_q (BlockingQueue_move this bq s this) = bq_q (s bq) \<and>
     bq_q (BlockingQueue_move this bq s bq) = [] \<and>
     size_bq (BlockingQueue_move this bq s this) = length (bq_q (s bq)) \<and>
     size_bq (BlockingQueue_move this bq s bq) = 0 \<and>
     deQ_n (length (bq_q (s bq))) (BlockingQueue_move this bq s this)
       = Some (bq_q (s bq), \<lparr>bq_q = []\<rparr>) \<and>
     bq_q (move_assign this bq s this) = bq_q (s bq) \<and>
     bq_q (move_assign this bq s bq) = [] \<and>
     size_bq (move_assign this bq s this) = length (bq_q (s bq)) \<and>
     size_bq (move_assign this bq s bq) = 0 \<and>
     deQ_n (length (bq_q (s bq))) (move_assign this bq s this)
       = Some (bq_q (s bq), \<lparr>bq_q = []\<rparr>)"
proof -
  assume d: "this \<noteq> bq"
  have c: "BlockingQueue_move this bq s this = \<lparr>bq_q = bq_q (s bq)\<rparr>"
    "BlockingQueue_move this bq s bq = (s bq)\<lparr>bq_q := []\<rparr>"
    using d by (simp_all add: BlockingQueue_move_distinct)
  have a: "move_assign this bq s this = (s this)\<lparr>bq_q := bq_q (s bq)\<rparr>"
    "move_assign this bq s bq = (s bq)\<lparr>bq_q := []\<rparr>"
    using d by (simp_all add: move_assign_distinct)
  have dc: "deQ_n (length (bq_q (s bq))) \<lparr>bq_q = bq_q (s bq)\<rparr>
              = Some (bq_q (s bq), \<lparr>bq_q = []\<rparr>)"
    using deQ_n_drain [of "\<lparr>bq_q = bq_q (s bq)\<rparr>" "bq_q (s bq)"] by simp
  have da: "deQ_n (length (bq_q (s bq))) ((s this)\<lparr>bq_q := bq_q (s bq)\<rparr>)
              = Some (bq_q (s bq), \<lparr>bq_q = []\<rparr>)"
    using deQ_n_drain [of "(s this)\<lparr>bq_q := bq_q (s bq)\<rparr>" "bq_q (s bq)"] by simp
  show ?thesis
    unfolding c a using dc da by (simp add: size_bq_def queue_size_def)
qed

theorem move_transfers_sequence_witness:
  "(1::nat) \<noteq> 0 \<and>
   size_bq (move_assign 1 0 ((\<lambda>_. \<lparr>bq_q = []\<rparr>)(0 := \<lparr>bq_q = [''x'', ''y'']\<rparr>)) 1) = 2 \<and>
   deQ_n 2 (move_assign 1 0 ((\<lambda>_. \<lparr>bq_q = []\<rparr>)(0 := \<lparr>bq_q = [''x'', ''y'']\<rparr>)) 1)
     = Some ([''x'', ''y''], \<lparr>bq_q = []\<rparr>) \<and>
   size_bq (move_assign 1 0 ((\<lambda>_. \<lparr>bq_q = []\<rparr>)(0 := \<lparr>bq_q = [''x'', ''y'']\<rparr>)) 0) = 0 \<and>
   size_bq (BlockingQueue_move 1 0 ((\<lambda>_. \<lparr>bq_q = []\<rparr>)(0 := \<lparr>bq_q = [''x'', ''y'']\<rparr>)) 1) = 2 \<and>
   deQ_n 2 (BlockingQueue_move 1 0 ((\<lambda>_. \<lparr>bq_q = []\<rparr>)(0 := \<lparr>bq_q = [''x'', ''y'']\<rparr>)) 1)
     = Some ([''x'', ''y''], \<lparr>bq_q = []\<rparr>) \<and>
   size_bq (BlockingQueue_move 1 0 ((\<lambda>_. \<lparr>bq_q = []\<rparr>)(0 := \<lparr>bq_q = [''x'', ''y'']\<rparr>)) 0) = 0"
proof -
  have d: "(1::nat) \<noteq> 0" by simp
  show ?thesis
    using d move_transfers_sequence
      [OF d, of "(\<lambda>_. \<lparr>bq_q = []\<rparr>)(0 := \<lparr>bq_q = [''x'', ''y'']\<rparr>)"]
    by (simp add: numeral_2_eq_2 del: deQ_n.simps)
qed

text \<open>
  C4 (blocking wait). Let \<open>deQ\<close> be called on an empty queue. If every wake-up
  finds the queue empty, the call never returns. If the wake-ups before the
  \<open>n\<close>-th find it empty and the \<open>n\<close>-th finds \<open>x\<close> at its front, the call has
  gone back to waiting after each of the former and returns \<open>x\<close> at the latter,
  leaving the rest. So a call that returns has found the queue non-empty at
  some wake-up. When the other threads only call \<open>enQ\<close>: the call never returns
  if they never enqueue a value; it returns the first value they enqueue, after
  waiting through the wake-ups before it; and if it returns, one of them has
  called \<open>enQ\<close>.
\<close>

theorem deQ_blocks_until_enQ:
  "bq_q b = [] \<Longrightarrow>
     ((\<forall>k. env k = []) \<longrightarrow> deQ_env env b = None) \<and>
     ((\<forall>j<n. env j = []) \<and> env n = x # xs \<longrightarrow> deQ_env env b = Some (x, b\<lparr>bq_q := xs\<rparr>)) \<and>
     (deQ_env env b = Some r \<longrightarrow> (\<exists>m. env m \<noteq> [])) \<and>
     ((\<forall>k. vs k = []) \<longrightarrow> deQ_env (woken vs b) b = None) \<and>
     ((\<forall>j<n. vs j = []) \<and> vs n = x # xs \<longrightarrow>
        deQ_env (woken vs b) b = Some (x, b\<lparr>bq_q := xs\<rparr>)) \<and>
     (deQ_env (woken vs b) b = Some r \<longrightarrow> (\<exists>m. vs m \<noteq> []))"
proof -
  assume e: "bq_q b = []"
  have never: "(\<forall>k. env k = []) \<longrightarrow> deQ_env env b = None" for env :: "nat \<Rightarrow> 'a list"
    using e by (simp add: deQ_env_never)
  have first: "(\<forall>j<n. env j = []) \<and> env n = x # xs
      \<longrightarrow> deQ_env env b = Some (x, b\<lparr>bq_q := xs\<rparr>)" for env :: "nat \<Rightarrow> 'a list"
    using deQ_env_first [OF e, of n env x xs] by blast
  have needs: "deQ_env env b = Some r \<longrightarrow> (\<exists>m. env m \<noteq> [])" for env :: "nat \<Rightarrow> 'a list"
    using never [of env] by auto
  have quiet: "(\<forall>k. vs k = []) \<longrightarrow> (\<forall>k. woken vs b k = [])"
    using e by (simp add: woken_empty)
  have never_vs: "(\<forall>k. vs k = []) \<longrightarrow> deQ_env (woken vs b) b = None"
    using quiet never [of "woken vs b"] by blast
  have first_vs: "(\<forall>j<n. vs j = []) \<and> vs n = x # xs
      \<longrightarrow> deQ_env (woken vs b) b = Some (x, b\<lparr>bq_q := xs\<rparr>)"
  proof
    assume a: "(\<forall>j<n. vs j = []) \<and> vs n = x # xs"
    then have "\<forall>j<n. woken vs b j = []"
      using e by (auto intro: woken_empty)
    moreover have "woken vs b n = x # xs"
      using a e by (simp add: woken_first)
    ultimately show "deQ_env (woken vs b) b = Some (x, b\<lparr>bq_q := xs\<rparr>)"
      using first [of "woken vs b"] by blast
  qed
  have needs_vs: "deQ_env (woken vs b) b = Some r \<longrightarrow> (\<exists>m. vs m \<noteq> [])"
    using never_vs by auto
  from never [of env] first [of env] needs [of env] never_vs first_vs needs_vs
  show ?thesis by (intro conjI)
qed

theorem deQ_blocks_until_enQ_witness:
  "bq_q (\<lparr>bq_q = []\<rparr> :: string BlockingQueue) = [] \<and>
   deQ_env (\<lambda>_. []) (\<lparr>bq_q = []\<rparr> :: string BlockingQueue) = None \<and>
   deQ_env (\<lambda>k. if k < 2 then [] else [''m'', ''n'']) \<lparr>bq_q = []\<rparr>
     = Some (''m'', \<lparr>bq_q = [''n'']\<rparr>) \<and>
   deQ_env (woken (\<lambda>k. if k = 1 then [''m''] else []) \<lparr>bq_q = []\<rparr>) \<lparr>bq_q = []\<rparr>
     = Some (''m'', \<lparr>bq_q = []\<rparr>)"
proof -
  have e: "bq_q (\<lparr>bq_q = []\<rparr> :: string BlockingQueue) = []" by simp
  have u: "(\<lparr>bq_q = []\<rparr> :: string BlockingQueue)\<lparr>bq_q := [''n'']\<rparr> = \<lparr>bq_q = [''n'']\<rparr>"
    "(\<lparr>bq_q = []\<rparr> :: string BlockingQueue)\<lparr>bq_q := []\<rparr> = \<lparr>bq_q = []\<rparr>"
    by simp_all
  have never: "deQ_env (\<lambda>_. []) (\<lparr>bq_q = []\<rparr> :: string BlockingQueue) = None"
    using deQ_blocks_until_enQ
      [OF e, where env = "\<lambda>_. []" and vs = "\<lambda>_. []" and n = 0 and x = "''m''" and xs = "[]"
         and r = "(''m'', \<lparr>bq_q = []\<rparr>)"]
    by blast
  have h2: "(\<forall>j<2. (if j < (2::nat) then [] else [''m'', ''n'']) = []) \<and>
            (if (2::nat) < 2 then [] else [''m'', ''n'']) = ''m'' # [''n'']"
    by simp
  have first: "deQ_env (\<lambda>k. if k < 2 then [] else [''m'', ''n'']) \<lparr>bq_q = []\<rparr>
      = Some (''m'', (\<lparr>bq_q = []\<rparr> :: string BlockingQueue)\<lparr>bq_q := [''n'']\<rparr>)"
    using h2 deQ_blocks_until_enQ
      [OF e, where env = "\<lambda>k. if k < 2 then [] else [''m'', ''n'']" and vs = "\<lambda>_. []"
         and n = 2 and x = "''m''" and xs = "[''n'']" and r = "(''m'', \<lparr>bq_q = []\<rparr>)"]
    by blast
  have h1: "(\<forall>j<1. (if j = (1::nat) then [''m''] else []) = []) \<and>
            (if (1::nat) = 1 then [''m''] else []) = ''m'' # []"
    by simp
  have prod: "deQ_env (woken (\<lambda>k. if k = 1 then [''m''] else []) \<lparr>bq_q = []\<rparr>) \<lparr>bq_q = []\<rparr>
      = Some (''m'', (\<lparr>bq_q = []\<rparr> :: string BlockingQueue)\<lparr>bq_q := []\<rparr>)"
    using h1 deQ_blocks_until_enQ
      [OF e, where env = "\<lambda>_. []" and vs = "\<lambda>k. if k = 1 then [''m''] else []"
         and n = 1 and x = "''m''" and xs = "[]" and r = "(''m'', \<lparr>bq_q = []\<rparr>)"]
    by blast
  from e never first [unfolded u] prod [unfolded u] show ?thesis
    by (intro conjI)
qed

text \<open>
  C5 (clear). Whatever the queue holds, after \<open>clear\<close> its sequence is empty and
  \<open>size\<close> returns 0; no element is left to take out: a \<open>deQ\<close> that follows
  returns nothing (with no other thread to enqueue, it waits for ever) and
  \<open>front\<close> finds the queue empty.
\<close>

theorem clear_removes_all:
  "bq_q (clear b) = [] \<and>
   size_bq (clear b) = 0 \<and>
   deQ (clear b) = None \<and>
   front (clear b) = Inl (std_exception ''attempt to access empty queue'')"
  by (simp add: clear_eq size_bq_def queue_size_def deQ_Nil front_def)

theorem clear_removes_all_witness:
  "size_bq \<lparr>bq_q = [''a'', ''b'']\<rparr> = 2 \<and>
   size_bq (clear \<lparr>bq_q = [''a'', ''b'']\<rparr>) = 0 \<and>
   deQ (clear \<lparr>bq_q = [''a'', ''b'']\<rparr>) = None"
  using clear_removes_all [of "\<lparr>bq_q = [''a'', ''b'']\<rparr>"]
  by (simp add: size_bq_def queue_size_def)

text \<open>
  C6 (size). \<open>size\<close> returns the number of elements of the sequence. A queue
  made by the default constructor has size 0; one \<open>enQ\<close> on it makes the size 1,
  and the \<open>deQ\<close> that follows returns and makes it 0 again. In general \<open>enQ\<close>
  adds one to the size, and a \<open>deQ\<close> that returns takes one off.
\<close>

theorem size_counts_elements:
  "size_bq b = length (bq_q b) \<and>
   size_bq (BlockingQueue_default this s this) = 0 \<and>
   size_bq (enQ a (BlockingQueue_default this s this)) = 1 \<and>
   (\<exists>b'. deQ (enQ a (BlockingQueue_default this s this)) = Some (a, b') \<and> size_bq b' = 0) \<and>
   size_bq (enQ v b) = Suc (size_bq b) \<and>
   (case deQ b of
      None \<Rightarrow> size_bq b = 0
    | Some (w, b') \<Rightarrow> size_bq b = Suc (size_bq b'))"
proof -
  have fresh: "BlockingQueue_default this s this = \<lparr>bq_q = []\<rparr>"
    by (simp add: BlockingQueue_default_def)
  have one: "bq_q (enQ a \<lparr>bq_q = []\<rparr>) = [a]"
    by (simp add: enQ_def queue_push_def)
  have again: "deQ (enQ a \<lparr>bq_q = []\<rparr>) = Some (a, \<lparr>bq_q = []\<rparr>)"
    using deQ_Cons [OF one] by (simp add: enQ_def)
  have step: "(case deQ b of
      None \<Rightarrow> size_bq b = 0
    | Some (w, b') \<Rightarrow> size_bq b = Suc (size_bq b'))"
  proof (cases "bq_q b")
    case Nil
    then show ?thesis by (simp add: deQ_Nil size_bq_def queue_size_def)
  next
    case (Cons x xs)
    then show ?thesis by (simp add: deQ_Cons size_bq_def queue_size_def)
  qed
  show ?thesis
    unfolding fresh using one again step
    by (simp add: size_bq_def queue_size_def enQ_def queue_push_def)
qed

theorem size_counts_elements_witness:
  "size_bq (BlockingQueue_default 0 (\<lambda>_. \<lparr>bq_q = [''old'']\<rparr>) 0) = 0 \<and>
   size_bq (enQ ''a'' (BlockingQueue_default 0 (\<lambda>_. \<lparr>bq_q = [''old'']\<rparr>) 0)) = 1 \<and>
   (\<exists>b'. deQ (enQ ''a'' (BlockingQueue_default 0 (\<lambda>_. \<lparr>bq_q = [''old'']\<rparr>) 0))
            = Some (''a'', b') \<and> size_bq b' = 0)"
  using size_counts_elements
    [where b = "\<lparr>bq_q = []\<rparr>" and this = 0 and s = "\<lambda>_. \<lparr>bq_q = [''old'']\<rparr>"
       and a = "''a''" and v = "''a''"]
  by blast

text \<open>
  C7 (self move assignment). Assigning an object to itself by move changes
  nothing: the store, and with it the sequence of the object, is the same
  afterwards, and the call returns.
\<close>

theorem move_assign_self_noop:
  "move_assign a a s = s \<and>
   bq_q (move_assign a a s a) = bq_q (s a) \<and>
   exec (Call_move_assign a) a s = (Returns, s)"
  by (simp add: move_assign_def)

theorem move_assign_self_noop_witness:
  "bq_q (move_assign 0 0 (\<lambda>_. \<lparr>bq_q = [''x'', ''y'']\<rparr>) 0) = [''x'', ''y'']"
  using move_assign_self_noop [of 0 "\<lambda>_. \<lparr>bq_q = [''x'', ''y'']\<rparr>"] by simp

text \<open>
  C8 (move assignment replaces the destination). After the move assignment the
  sequence of the destination \<open>this\<close> is the sequence the source \<open>bq\<close> had
  before, whatever the destination held: none of its own elements is left. A
  destination that held "p", "q", "r" holds just "x" after taking over a source
  that held "x".
\<close>

theorem move_assign_replaces_destination:
  "bq_q (move_assign this bq s this) = bq_q (s bq)"
proof (cases "this = bq")
  case True
  then show ?thesis by (simp add: move_assign_def)
next
  case False
  then show ?thesis by (simp add: move_assign_distinct)
qed

theorem move_assign_replaces_destination_witness:
  "bq_q (move_assign 1 0
      ((\<lambda>_. \<lparr>bq_q = []\<rparr>)(0 := \<lparr>bq_q = [''x'']\<rparr>, 1 := \<lparr>bq_q = [''p'', ''q'', ''r'']\<rparr>)) 1)
     = [''x'']"
  using move_assign_replaces_destination
    [of 1 0 "(\<lambda>_. \<lparr>bq_q = []\<rparr>)(0 := \<lparr>bq_q = [''x'']\<rparr>, 1 := \<lparr>bq_q = [''p'', ''q'', ''r'']\<rparr>)"]
  by simp

text \<open>
  C9 (what \<open>deQ\<close> removes). On a queue whose sequence is \<open>x\<close> followed by \<open>xs\<close>,
  \<open>deQ\<close> returns \<open>x\<close> and the sequence left is exactly \<open>xs\<close>: the other
  elements, unchanged and in their order. No other object of the store changes.
\<close>

theorem deQ_removes_front_only:
  "bq_q b = x # xs \<Longrightarrow>
     deQ b = Some (x, b\<lparr>bq_q := xs\<rparr>) \<and>
     (s this = b \<longrightarrow> exec Call_deQ this s = (Returns_value x, s(this := b\<lparr>bq_q := xs\<rparr>)))"
  by (simp add: deQ_Cons)

theorem deQ_removes_front_only_witness:
  "bq_q \<lparr>bq_q = [''a'', ''b'', ''c'']\<rparr> = ''a'' # [''b'', ''c''] \<and>
   deQ \<lparr>bq_q = [''a'', ''b'', ''c'']\<rparr> = Some (''a'', \<lparr>bq_q = [''b'', ''c'']\<rparr>) \<and>
   exec Call_deQ 0 (\<lambda>_. \<lparr>bq_q = [''a'', ''b'', ''c'']\<rparr>)
     = (Returns_value ''a'',
        (\<lambda>_. \<lparr>bq_q = [''a'', ''b'', ''c'']\<rparr>)(0 := \<lparr>bq_q = [''b'', ''c'']\<rparr>))"
proof -
  have h: "bq_q \<lparr>bq_q = [''a'', ''b'', ''c'']\<rparr> = ''a'' # [''b'', ''c'']" by simp
  have k: "(\<lambda>_. \<lparr>bq_q = [''a'', ''b'', ''c'']\<rparr>) (0::nat) = \<lparr>bq_q = [''a'', ''b'', ''c'']\<rparr>" by simp
  from deQ_removes_front_only [OF h, of "\<lambda>_. \<lparr>bq_q = [''a'', ''b'', ''c'']\<rparr>" 0] h k
  show ?thesis by (simp del: exec.simps)
qed

text \<open>
  C10 (clear is idempotent and total). \<open>clear\<close> returns on every queue and
  leaves the empty queue; on an empty queue it changes nothing; and a second
  \<open>clear\<close> gives what the first one gave.
\<close>

theorem clear_idempotent:
  "clear (clear b) = clear b \<and>
   clear b = b\<lparr>bq_q := []\<rparr> \<and>
   (bq_q b = [] \<longrightarrow> clear b = b) \<and>
   exec Call_clear this s = (Returns, s(this := (s this)\<lparr>bq_q := []\<rparr>))"
  by (simp add: clear_eq)

theorem clear_idempotent_witness:
  "bq_q (\<lparr>bq_q = []\<rparr> :: string BlockingQueue) = [] \<and>
   clear (\<lparr>bq_q = []\<rparr> :: string BlockingQueue) = \<lparr>bq_q = []\<rparr> \<and>
   clear (clear \<lparr>bq_q = [''a'', ''b'']\<rparr>) = clear \<lparr>bq_q = [''a'', ''b'']\<rparr> \<and>
   clear \<lparr>bq_q = [''a'', ''b'']\<rparr> = \<lparr>bq_q = []\<rparr>"
proof -
  have e: "bq_q (\<lparr>bq_q = []\<rparr> :: string BlockingQueue) = []" by simp
  have u: "\<lparr>bq_q = [''a'', ''b'']\<rparr>\<lparr>bq_q := []\<rparr> = \<lparr>bq_q = []\<rparr>" by simp
  have noop: "clear (\<lparr>bq_q = []\<rparr> :: string BlockingQueue) = \<lparr>bq_q = []\<rparr>"
    using e clear_idempotent
      [of "\<lparr>bq_q = []\<rparr> :: string BlockingQueue" 0 "\<lambda>_. \<lparr>bq_q = [] :: string list\<rparr>"]
    by blast
  have twice: "clear (clear \<lparr>bq_q = [''a'', ''b'']\<rparr>) = clear \<lparr>bq_q = [''a'', ''b'']\<rparr>"
    and once: "clear \<lparr>bq_q = [''a'', ''b'']\<rparr> = \<lparr>bq_q = [''a'', ''b'']\<rparr>\<lparr>bq_q := []\<rparr>"
    using clear_idempotent
      [of "\<lparr>bq_q = [''a'', ''b'']\<rparr>" 0 "\<lambda>_. \<lparr>bq_q = [] :: string list\<rparr>"]
    by blast+
  from e noop twice once [unfolded u] show ?thesis
    by (intro conjI)
qed

end
